theory Spec2Isabelle
  imports Complex_Main
begin

section \<open>The scheduled callback driver: the \<open>usePolling\<close> hook\<close>

text \<open>
  \<open>usePolling(callback, options)\<close> of \<open>hooks/usePolling\<close> keeps a timer handle in
  \<open>intervalRef\<close> and installs the timer in a React effect whose dependencies are
  \<open>[interval, enabled, immediate]\<close>. The model is explicit state passing. The state holds
  the ref, the interval timers of \<open>window\<close> that are alive, the last handle that
  \<open>window.setInterval\<close> returned (handles are positive integers, each one fresh), whether
  the last run of the effect returned a cleanup function, the dependencies of the last
  run, and the number of times \<open>savedCallback.current()\<close> has been invoked.
  The model covers the time the component is mounted.
\<close>

record UsePollingOptions =
  interval :: nat
  enabled :: "bool option"
  immediate :: "bool option"

type_synonym deps = "nat \<times> bool \<times> bool"

record polling =
  intervalRef :: "nat option"
  timers :: "nat list"
  last_handle :: nat
  has_cleanup :: bool
  last_deps :: "deps option"
  invocations :: nat

definition polling_init :: polling where
  "polling_init = \<lparr>intervalRef = None, timers = [], last_handle = 0, has_cleanup = False,
     last_deps = None, invocations = 0\<rparr>"

text \<open>\<open>const { interval, enabled = true, immediate = true } = options\<close>\<close>

definition destructure :: "UsePollingOptions \<Rightarrow> deps" where
  "destructure options =
     (interval options,
      (case enabled options of None \<Rightarrow> True | Some b \<Rightarrow> b),
      (case immediate options of None \<Rightarrow> True | Some b \<Rightarrow> b))"

text \<open>\<open>tick = () => savedCallback.current()\<close>: one invocation of the scheduled operation.\<close>

definition tick :: "polling \<Rightarrow> polling" where
  "tick d = d\<lparr>invocations := Suc (invocations d)\<rparr>"

definition clearInterval :: "nat \<Rightarrow> polling \<Rightarrow> polling" where
  "clearInterval h d = d\<lparr>timers := removeAll h (timers d)\<rparr>"

text \<open>
  \<open>if (intervalRef.current) { clearInterval(intervalRef.current); ... }\<close>: the test is
  JavaScript truthiness, so \<open>undefined\<close> and the number 0 both skip the branch.
\<close>

definition clear_if_set :: "polling \<Rightarrow> polling" where
  "clear_if_set d =
     (case intervalRef d of
        None \<Rightarrow> d
      | Some h \<Rightarrow> if h \<noteq> 0 then clearInterval h d else d)"

definition clear_and_reset :: "polling \<Rightarrow> polling" where
  "clear_and_reset d =
     (case intervalRef d of
        None \<Rightarrow> d
      | Some h \<Rightarrow> if h \<noteq> 0 then (clearInterval h d)\<lparr>intervalRef := None\<rparr> else d)"

text \<open>The function the effect returns (source lines 160--165).\<close>

definition effect_cleanup :: "polling \<Rightarrow> polling" where
  "effect_cleanup d = clear_and_reset d"

text \<open>The body of the polling effect (source lines 144--159).\<close>

definition effect :: "deps \<Rightarrow> polling \<Rightarrow> polling" where
  "effect dp d =
     (case dp of (ival, en, imm) \<Rightarrow>
        if \<not> en then d\<lparr>has_cleanup := False\<rparr>
        else
          let d1 = (if imm then tick d else d);
              d2 = clear_if_set d1;
              h = Suc (last_handle d2)
          in d2\<lparr>timers := timers d2 @ [h], last_handle := h,
                intervalRef := Some h, has_cleanup := True\<rparr>)"

text \<open>
  One render of the hook followed by React's commit: when a dependency differs from the
  last run, the cleanup of the last run (if it returned one) runs and then the effect.
\<close>

definition usePolling :: "UsePollingOptions \<Rightarrow> polling \<Rightarrow> polling" where
  "usePolling options d =
     (let dp = destructure options in
      if last_deps d = Some dp then d
      else effect dp ((if has_cleanup d then effect_cleanup d else d)\<lparr>last_deps := Some dp\<rparr>))"

text \<open>The \<open>stop\<close> function the hook returns (source lines 169--174).\<close>

definition stop :: "polling \<Rightarrow> polling" where
  "stop d = clear_and_reset d"

text \<open>The timer with handle \<open>h\<close> comes due: \<open>window\<close> runs \<open>tick\<close> only if it is alive.\<close>

definition fire :: "nat \<Rightarrow> polling \<Rightarrow> polling" where
  "fire h d = (if h \<in> set (timers d) then tick d else d)"






text \<open>
  The invariant of the hook: the only timer that can be alive is the one the ref holds,
  the ref never holds 0, and a live timer always has its cleanup registered.
\<close>

definition polling_inv :: "polling \<Rightarrow> bool" where
  "polling_inv d \<longleftrightarrow>
     set (timers d) \<subseteq> set_option (intervalRef d) \<and>
     intervalRef d \<noteq> Some 0 \<and>
     (timers d \<noteq> [] \<longrightarrow> has_cleanup d)"

section \<open>The job status tracker: \<open>JobStatusTracker\<close>\<close>

datatype lifecycle = uploaded | processing | completed | failed

record DatasetInfo =
  total_images :: int
  file_size_mb :: rat
  formats :: "string list"

text \<open>
  \<open>interface JobStatus\<close> of \<open>services/api.ts\<close>. \<open>progress\<close> is a JavaScript number; the
  rationals hold every finite one, and the tracker only stores and compares it.
  The untyped \<open>cleaning_options\<close> is never read and is left out.
\<close>

record JobStatus =
  job_id :: string
  status :: lifecycle
  progress :: rat
  message :: string
  download_url :: "string option"
  download_ready :: "bool option"
  dataset_info :: "DatasetInfo option"

text \<open>
  What the awaited \<open>apiService.getJobStatus(jobId)\<close> settles with: the response data, or
  the error axios throws, of which the handler reads \<open>err.response?.status\<close> and
  \<open>err.response?.data?.detail\<close>. A network failure or a timeout has no response.
\<close>

record error_response =
  status_code :: int
  detail :: "string option"

datatype fetch_result = Fulfilled JobStatus | Rejected "error_response option"

datatype toast = Success string | Error string | Loading string

datatype event =
    Toast toast
  | OnComplete JobStatus
  | OnError string
  | ConsoleError string

text \<open>
  The props of the component. \<open>onComplete\<close> and \<open>onError\<close> are optional callbacks: the
  field says whether the parent supplied one, and a call of it is an event.
\<close>

record JobStatusTrackerProps =
  jobId :: string
  onComplete :: bool
  onError :: bool
  autoStart :: "bool option"

record tracker =
  job :: "JobStatus option"
  error :: "string option"
  isPolling :: bool

text \<open>\<open>useState\<close> initial values; \<open>autoStart = true\<close> by default.\<close>

definition tracker_init :: "JobStatusTrackerProps \<Rightarrow> tracker" where
  "tracker_init p =
     \<lparr>job = None, error = None,
      isPolling = (case autoStart p of None \<Rightarrow> True | Some b \<Rightarrow> b)\<rparr>"

text \<open>\<open>a || b\<close> on an optional string: \<open>undefined\<close> and the empty string are falsy.\<close>

definition or_else :: "string option \<Rightarrow> string \<Rightarrow> string" where
  "or_else a b = (case a of None \<Rightarrow> b | Some x \<Rightarrow> if x = [] then b else x)"

text \<open>
  The text of the success toast (source line 42): the words are followed by a party
  emoji that the source file stores mis-encoded, as the nine bytes given here.
\<close>

definition completed_message :: string where
  "completed_message =
     ''Dataset processing completed! '' @
     [CHR 0xC3, CHR 0xB0, CHR 0xC5, CHR 0xB8, CHR 0xC5, CHR 0xBD, CHR 0xE2, CHR 0x80, CHR 0xB0]"

text \<open>
  \<open>fetchJobStatus\<close> from the point where the awaited status request settles (source
  lines 35--68): the \<open>try\<close> block for a response, the \<open>catch\<close> block for an error.
  It returns the new component state and the events in the order they happen.
  The two status tests are separate \<open>if\<close> statements, as in the source.
  The toast functions and the parent's callbacks are taken to return normally.
\<close>

definition fetchJobStatus ::
  "JobStatusTrackerProps \<Rightarrow> fetch_result \<Rightarrow> tracker \<Rightarrow> tracker \<times> event list" where
  "fetchJobStatus p r t =
     (case r of
        Fulfilled st \<Rightarrow>
          let t1 = t\<lparr>job := Some st, error := None\<rparr>;
              (t2, ev2) =
                (if status st = completed
                 then (t1\<lparr>isPolling := False\<rparr>,
                       Toast (Success completed_message) #
                       (if onComplete p then [OnComplete st] else []))
                 else (t1, []));
              (t3, ev3) =
                (if status st = failed
                 then (t2\<lparr>isPolling := False\<rparr>,
                       Toast (Error ''Dataset processing failed'') #
                       (if onError p then [OnError (or_else (Some (message st)) ''Job failed'')]
                        else []))
                 else (t2, []))
          in (t3, ev2 @ ev3)
      | Rejected resp \<Rightarrow>
          let ev1 = [ConsoleError ''Error fetching job status:''];
              t1 = t\<lparr>error := Some (or_else (case resp of None \<Rightarrow> None | Some e \<Rightarrow> detail e)
                                         ''Failed to fetch job status'')\<rparr>
          in if (case resp of None \<Rightarrow> False | Some e \<Rightarrow> status_code e = 404)
             then (t1\<lparr>isPolling := False\<rparr>,
                   ev1 @ (if onError p then [OnError ''Job not found''] else []))
             else (t1, ev1))"

subsection \<open>The component: tracker state, polling hook and requests in flight\<close>

text \<open>
  One mounted \<open>JobStatusTracker\<close>. Every invocation of the scheduled operation is a call of
  \<open>fetchJobStatus\<close>, which sends one status request at once, so \<open>invocations\<close> of the hook
  counts the polls dispatched; \<open>settled\<close> counts the requests that have come back.
\<close>

record session =
  component :: tracker
  hook :: polling
  settled :: nat
  events :: "event list"

text \<open>The options the component passes to the hook on every render (source lines 72--76).\<close>

definition polling_options :: "tracker \<Rightarrow> UsePollingOptions" where
  "polling_options t = \<lparr>interval = 2000, enabled = Some (isPolling t), immediate = Some True\<rparr>"

definition render :: "session \<Rightarrow> session" where
  "render s = s\<lparr>hook := usePolling (polling_options (component s)) (hook s)\<rparr>"

definition mount :: "JobStatusTrackerProps \<Rightarrow> session" where
  "mount p = render \<lparr>component = tracker_init p, hook = polling_init, settled = 0, events = []\<rparr>"

text \<open>\<open>handleStop\<close> (source lines 79--82): \<open>setIsPolling(false); stop()\<close>.\<close>

definition handleStop :: "session \<Rightarrow> session" where
  "handleStop s = s\<lparr>component := (component s)\<lparr>isPolling := False\<rparr>, hook := stop (hook s)\<rparr>"

text \<open>
  What can happen to a mounted tracker: a timer comes due, a request in flight settles,
  the user presses "Stop Tracking". The button is the only caller of \<open>handleStop\<close>, and
  the component renders it only in the main card, that is when \<open>job\<close> is not null, and
  only while \<open>isPolling\<close> holds (source lines 131--157 and 193--200); without the button
  the input changes nothing. The model takes a state change to be followed by the
  render and the run of the effect before the next timer or response is handled.
\<close>

definition stop_button_shown :: "tracker \<Rightarrow> bool" where
  "stop_button_shown t \<longleftrightarrow> job t \<noteq> None \<and> isPolling t"

datatype session_input = TimerDue nat | Settled fetch_result | StopTracking

fun session_step :: "JobStatusTrackerProps \<Rightarrow> session_input \<Rightarrow> session \<Rightarrow> session" where
  "session_step p (TimerDue h) s = s\<lparr>hook := fire h (hook s)\<rparr>"
| "session_step p (Settled r) s =
     (if settled s < invocations (hook s)
      then (case fetchJobStatus p r (component s) of
              (t, ev) \<Rightarrow> render (s\<lparr>component := t, settled := Suc (settled s),
                                   events := events s @ ev\<rparr>))
      else s)"
| "session_step p StopTracking s =
     (if stop_button_shown (component s) then render (handleStop s) else s)"

fun session_run :: "JobStatusTrackerProps \<Rightarrow> session \<Rightarrow> session_input list \<Rightarrow> session" where
  "session_run p s [] = s"
| "session_run p s (i # is) = session_run p (session_step p i s) is"


subsection \<open>The snapshots a tracker holds over time\<close>

text \<open>The value of \<open>job\<close> after each settled request, in the order the requests settle.\<close>

fun job_history ::
  "JobStatusTrackerProps \<Rightarrow> tracker \<Rightarrow> fetch_result list \<Rightarrow> JobStatus option list" where
  "job_history p t [] = []"
| "job_history p t (r # rs) =
     (let t' = fst (fetchJobStatus p r t) in job t' # job_history p t' rs)"

text \<open>The snapshots the server returned, in the same order.\<close>

fun received :: "fetch_result list \<Rightarrow> JobStatus list" where
  "received [] = []"
| "received (Fulfilled st # rs) = st # received rs"
| "received (Rejected e # rs) = received rs"

definition is_nonterminal :: "JobStatus \<Rightarrow> bool" where
  "is_nonterminal st \<longleftrightarrow> status st = uploaded \<or> status st = processing"

text \<open>
  The progress contract for one snapshot after the previous one: within 0--100, 100 when
  completed, and not below the previous progress when both are non-terminal.
\<close>

definition progress_step_ok :: "JobStatus option \<Rightarrow> JobStatus \<Rightarrow> bool" where
  "progress_step_ok prev st \<longleftrightarrow>
     0 \<le> progress st \<and> progress st \<le> 100 \<and>
     (status st = completed \<longrightarrow> progress st = 100) \<and>
     (case prev of
        None \<Rightarrow> True
      | Some q \<Rightarrow> is_nonterminal q \<and> is_nonterminal st \<longrightarrow> progress q \<le> progress st)"

fun progress_ok :: "JobStatus option \<Rightarrow> JobStatus list \<Rightarrow> bool" where
  "progress_ok prev [] = True"
| "progress_ok prev (st # sts) = (progress_step_ok prev st \<and> progress_ok (Some st) sts)"

fun history_ok :: "JobStatus option \<Rightarrow> JobStatus option list \<Rightarrow> bool" where
  "history_ok prev [] = True"
| "history_ok prev (None # hs) = history_ok prev hs"
| "history_ok prev (Some st # hs) = (progress_step_ok prev st \<and> history_ok (Some st) hs)"

section \<open>The artifact locator\<close>

text \<open>
  \<open>const API_BASE_URL = process.env.REACT_APP_API_URL || 'http://localhost:8000'\<close>,
  read once when the module loads.
\<close>

type_synonym env = "string \<rightharpoonup> string"

definition API_BASE_URL :: "env \<Rightarrow> string" where
  "API_BASE_URL e = or_else (e ''REACT_APP_API_URL'') ''http://localhost:8000''"

text \<open>\<open>getDownloadUrl\<close> (source lines 91--93), with the module constant as a parameter.\<close>

definition getDownloadUrl :: "string \<Rightarrow> string \<Rightarrow> string" where
  "getDownloadUrl base jid = base @ ''/api/v1/download/'' @ jid"

text \<open>
  \<open>handleDownload\<close> of the tracker (source lines 123--129): the location it opens, if any.
  \<open>job?.download_url\<close> is only tested for truthiness: it must be a non-empty string.
\<close>

definition handleDownload :: "string \<Rightarrow> JobStatusTrackerProps \<Rightarrow> tracker \<Rightarrow> string option" where
  "handleDownload base p t =
     (case job t of
        None \<Rightarrow> None
      | Some st \<Rightarrow>
          (case download_url st of
             None \<Rightarrow> None
           | Some u \<Rightarrow> if u \<noteq> [] then Some (getDownloadUrl base (jobId p)) else None))"

section \<open>The invariant of a mounted tracker, and example values\<close>

text \<open>
  The invariant of a mounted tracker: the hook's invariant, the effect has run for the
  current value of \<open>isPolling\<close>, a tracker that is not polling has no live timer, and no
  more requests have settled than were sent.
\<close>

definition session_inv :: "session \<Rightarrow> bool" where
  "session_inv s \<longleftrightarrow>
     polling_inv (hook s) \<and>
     last_deps (hook s) = Some (destructure (polling_options (component s))) \<and>
     (isPolling (component s) \<or> timers (hook s) = []) \<and>
     settled s \<le> invocations (hook s)"


text \<open>A tracker that has stopped polling: the flag is off and no timer is alive.\<close>

definition halted :: "session \<Rightarrow> bool" where
  "halted s \<longleftrightarrow>
     \<not> isPolling (component s) \<and> timers (hook s) = [] \<and>
     last_deps (hook s) = Some (destructure (polling_options (component s)))"

text \<open>Example props and snapshots for the concrete runs below.\<close>

definition demo_props :: JobStatusTrackerProps where
  "demo_props = \<lparr>jobId = ''job-1'', onComplete = True, onError = True, autoStart = None\<rparr>"

definition demo_snapshot :: "lifecycle \<Rightarrow> rat \<Rightarrow> JobStatus" where
  "demo_snapshot st pr =
     \<lparr>job_id = ''job-1'', status = st, progress = pr, message = ''working'',
      download_url = (if st = completed then Some ''/api/v1/download/job-1'' else None),
      download_ready = None, dataset_info = None\<rparr>"

section \<open>The submission client: \<open>FileUpload\<close> and \<open>uploadDataset\<close>\<close>

subsection \<open>JavaScript strings and values\<close>

text \<open>\<open>s.split(c)\<close> for a one-character separator: never empty, \<open>''.split('.')\<close> is \<open>['']\<close>.\<close>

fun js_split :: "char \<Rightarrow> string \<Rightarrow> string list" where
  "js_split c [] = [[]]"
| "js_split c (x # xs) =
     (if x = c then [] # js_split c xs
      else (case js_split c xs of [] \<Rightarrow> [[x]] | w # ws \<Rightarrow> (x # w) # ws))"

text \<open>\<open>Array.prototype.pop\<close>: the last element, \<open>undefined\<close> for an empty array.\<close>

definition pop :: "'a list \<Rightarrow> 'a option" where
  "pop xs = (if xs = [] then None else Some (last xs))"

text \<open>\<open>toLowerCase\<close> on the ASCII letters; other bytes are left as they are.\<close>

definition toLowerCase_char :: "char \<Rightarrow> char" where
  "toLowerCase_char c =
     (case map_of (zip ''ABCDEFGHIJKLMNOPQRSTUVWXYZ'' ''abcdefghijklmnopqrstuvwxyz'') c of
        None \<Rightarrow> c | Some l \<Rightarrow> l)"

definition toLowerCase :: "string \<Rightarrow> string" where
  "toLowerCase s = map toLowerCase_char s"

text \<open>\<open>hay.includes(needle)\<close> on strings: \<open>needle\<close> occurs somewhere in \<open>hay\<close>.\<close>

fun js_includes :: "string \<Rightarrow> string \<Rightarrow> bool" where
  "js_includes [] needle = (needle = [])"
| "js_includes (h # hay) needle =
     (take (length needle) (h # hay) = needle \<or> js_includes hay needle)"

text \<open>
  How a template literal renders a whole number of magnitude below \<open>10^21\<close>: its decimal
  digits, with a minus sign in front of a negative one. The digits are produced from the
  last one backwards. From \<open>10^21\<close> on JavaScript prints an exponent form instead, which
  this function does not reproduce; it only matters for the text of the size toast when
  \<open>maxSize\<close> is that large.
\<close>

definition digit :: "nat \<Rightarrow> char" where
  "digit k = ''0123456789'' ! k"

function decimal_acc :: "nat \<Rightarrow> string \<Rightarrow> string" where
  "decimal_acc n acc =
     (if n < 10 then digit n # acc else decimal_acc (n div 10) (digit (n mod 10) # acc))"
  by pat_completeness auto
termination
  by (relation "measure fst") auto

definition number_text :: "int \<Rightarrow> string" where
  "number_text i =
     (if 0 \<le> i then decimal_acc (nat i) [] else CHR ''-'' # decimal_acc (nat (- i)) [])"

datatype js_value = JStr string | JBool bool | JNum int | JUndefined | JNull

fun toString :: "js_value \<Rightarrow> string" where
  "toString (JStr s) = s"
| "toString (JBool b) = (if b then ''true'' else ''false'')"
| "toString (JNum n) = number_text n"
| "toString JUndefined = ''undefined''"
| "toString JNull = ''null''"

subsection \<open>\<open>apiService.uploadDataset\<close>\<close>

record File =
  file_name :: string
  file_size :: int

text \<open>
  The request \<open>uploadDataset\<close> sends (source lines 54--82): a POST of the file as form data
  to \<open>/api/v1/upload\<close>, with one query parameter for each entry of \<open>options\<close> whose value
  is neither \<open>null\<close> nor \<open>undefined\<close>, in the order of the entries. \<open>params\<close> holds the
  pairs appended to the \<open>URLSearchParams\<close>.
\<close>

record upload_request =
  path :: string
  params :: "(string \<times> string) list"
  form_file :: File

definition search_params :: "(string \<times> js_value) list \<Rightarrow> (string \<times> string) list" where
  "search_params options =
     map (\<lambda>(key, v). (key, toString v))
       (filter (\<lambda>(key, v). v \<noteq> JNull \<and> v \<noteq> JUndefined) options)"

definition uploadDataset :: "File \<Rightarrow> (string \<times> js_value) list \<Rightarrow> upload_request" where
  "uploadDataset file options =
     \<lparr>path = ''/api/v1/upload'', params = search_params options, form_file = file\<rparr>"

subsection \<open>The \<open>FileUpload\<close> component\<close>

record FileUploadProps =
  onUploadSuccess :: bool
  onUploadError :: bool
  acceptedTypes :: "string option"
  maxSize :: "int option"
  qualityMode :: "string option"

text \<open>The default values of the destructured props (source lines 720--722).\<close>

definition acceptedTypes_of :: "FileUploadProps \<Rightarrow> string" where
  "acceptedTypes_of p =
     (case acceptedTypes p of None \<Rightarrow> ''.zip,.jpg,.jpeg,.png,.bmp,.tiff,.webp'' | Some a \<Rightarrow> a)"

definition maxSize_of :: "FileUploadProps \<Rightarrow> int" where
  "maxSize_of p = (case maxSize p of None \<Rightarrow> 1024 | Some m \<Rightarrow> m)"

definition qualityMode_of :: "FileUploadProps \<Rightarrow> string" where
  "qualityMode_of p = (case qualityMode p of None \<Rightarrow> ''balanced'' | Some q \<Rightarrow> q)"

text \<open>
  The state of the component, with the toasts shown and the upload requests sent so far.
  File sizes are whole numbers of bytes and \<open>maxSize\<close> a whole number of megabytes;
  multiplying a JavaScript number by 1024 is exact, so the comparison is the one on
  integers.
\<close>

record FileUpload =
  selectedFile :: "File option"
  uploading :: bool
  uploadProgress :: nat
  toasts :: "toast list"
  requests :: "upload_request list"

definition FileUpload_init :: FileUpload where
  "FileUpload_init =
     \<lparr>selectedFile = None, uploading = False, uploadProgress = 0, toasts = [], requests = []\<rparr>"

text \<open>\<open>'.' + file.name.split('.').pop()?.toLowerCase()\<close>\<close>

definition fileExtension :: "string \<Rightarrow> string" where
  "fileExtension n =
     ''.'' @ (case pop (js_split CHR ''.'' n) of
                None \<Rightarrow> ''undefined''
              | Some seg \<Rightarrow> toLowerCase seg)"

text \<open>\<open>handleFileSelect\<close> (source lines 760--776).\<close>

definition handleFileSelect :: "FileUploadProps \<Rightarrow> File \<Rightarrow> FileUpload \<Rightarrow> FileUpload" where
  "handleFileSelect p file st =
     (if file_size file > maxSize_of p * 1024 * 1024
      then st\<lparr>toasts := toasts st @
             [Error (''File size must be less than '' @ number_text (maxSize_of p) @ ''MB'')]\<rparr>
      else if \<not> js_includes (acceptedTypes_of p) (fileExtension (file_name file))
      then st\<lparr>toasts := toasts st @ [Error ''Please select a supported file type'']\<rparr>
      else st\<lparr>selectedFile := Some file,
              toasts := toasts st @ [Success ''File selected successfully!'']\<rparr>)"

text \<open>
  \<open>handleUpload\<close> (source lines 779--799) up to the point where it awaits the response:
  nothing is sent without a selected file; otherwise the request goes out with the
  options written in the source. The rest of the function handles the response: it
  shows toasts, calls the callbacks and resets \<open>uploading\<close> and \<open>uploadProgress\<close>, and
  sends nothing.
\<close>

definition handleUpload :: "FileUploadProps \<Rightarrow> FileUpload \<Rightarrow> FileUpload" where
  "handleUpload p st =
     (case selectedFile st of
        None \<Rightarrow> st
      | Some file \<Rightarrow>
          st\<lparr>uploading := True, uploadProgress := 0,
             toasts := toasts st @ [Loading ''Uploading dataset...''],
             requests := requests st @
               [uploadDataset file
                  [(''quality_mode'', JStr (qualityMode_of p)),
                   (''remove_duplicates'', JBool True),
                   (''normalize_format'', JBool True),
                   (''target_format'', JStr ''JPEG'')]]\<rparr>)"

text \<open>\<open>clearFile\<close> (source lines 839--844).\<close>

definition clearFile :: "FileUpload \<Rightarrow> FileUpload" where
  "clearFile st = st\<lparr>selectedFile := None\<rparr>"

text \<open>What the user can do with the component, in any order.\<close>

datatype upload_input = SelectFile File | StartUpload | ClearFile

fun upload_step :: "FileUploadProps \<Rightarrow> upload_input \<Rightarrow> FileUpload \<Rightarrow> FileUpload" where
  "upload_step p (SelectFile file) st = handleFileSelect p file st"
| "upload_step p StartUpload st = handleUpload p st"
| "upload_step p ClearFile st = clearFile st"

fun upload_run :: "FileUploadProps \<Rightarrow> FileUpload \<Rightarrow> upload_input list \<Rightarrow> FileUpload" where
  "upload_run p st [] = st"
| "upload_run p st (i # is) = upload_run p (upload_step p i st) is"

text \<open>The component as the page mounts it: \<open>maxSize={1024}\<close> and a quality mode.\<close>

definition page_props :: "string \<Rightarrow> FileUploadProps" where
  "page_props mode =
     \<lparr>onUploadSuccess = True, onUploadError = True, acceptedTypes = None,
      maxSize = Some 1024, qualityMode = Some mode\<rparr>"

text \<open>A file passed the checks of \<open>handleFileSelect\<close>.\<close>

definition validated :: "FileUploadProps \<Rightarrow> File \<Rightarrow> bool" where
  "validated p file \<longleftrightarrow>
     file_size file \<le> maxSize_of p * 1024 * 1024 \<and>
     js_includes (acceptedTypes_of p) (fileExtension (file_name file))"

text \<open>The query parameters \<open>handleUpload\<close> sends for the props \<open>p\<close>.\<close>

definition upload_params :: "FileUploadProps \<Rightarrow> (string \<times> string) list" where
  "upload_params p =
     [(''quality_mode'', qualityMode_of p), (''remove_duplicates'', ''true''),
      (''normalize_format'', ''true''), (''target_format'', ''JPEG'')]"

text \<open>
  Whatever the user does, the selected file and the file of every request sent passed
  both checks, and every request carries the parameters of \<open>handleUpload\<close>.
\<close>

definition upload_inv :: "FileUploadProps \<Rightarrow> FileUpload \<Rightarrow> bool" where
  "upload_inv p st \<longleftrightarrow>
     (\<forall>f. selectedFile st = Some f \<longrightarrow> validated p f) \<and>
     (\<forall>r \<in> set (requests st). validated p (form_file r) \<and> params r = upload_params p \<and>
        path r = ''/api/v1/upload'')"

section \<open>Properties of the driver\<close>

lemma polling_inv_init: "polling_inv polling_init"
  by (simp add: polling_inv_def polling_init_def)

lemma polling_inv_clear_and_reset: "polling_inv d \<Longrightarrow> polling_inv (clear_and_reset d)"
  by (auto simp: polling_inv_def clear_and_reset_def clearInterval_def split: option.splits)

lemma timers_clear_and_reset: "polling_inv d \<Longrightarrow> timers (clear_and_reset d) = []"
proof -
  assume inv: "polling_inv d"
  show ?thesis
  proof (cases "intervalRef d")
    case None
    with inv show ?thesis by (simp add: polling_inv_def clear_and_reset_def)
  next
    case (Some h)
    with inv have "h \<noteq> 0" and "set (timers d) \<subseteq> {h}"
      by (auto simp: polling_inv_def)
    then have "removeAll h (timers d) = []"
      by (auto simp: removeAll_filter_not_eq filter_empty_conv)
    with Some \<open>h \<noteq> 0\<close> show ?thesis
      by (simp add: clear_and_reset_def clearInterval_def)
  qed
qed

lemma timers_clear_if_set: "polling_inv d \<Longrightarrow> timers (clear_if_set d) = []"
proof -
  assume inv: "polling_inv d"
  have "timers (clear_if_set d) = timers (clear_and_reset d)"
    by (simp add: clear_if_set_def clear_and_reset_def split: option.splits)
  with inv show ?thesis by (simp add: timers_clear_and_reset)
qed

lemma polling_inv_tick: "polling_inv d \<Longrightarrow> polling_inv (tick d)"
  by (simp add: polling_inv_def tick_def)

lemma polling_inv_effect:
  assumes "polling_inv d" and "timers d = []"
  shows "polling_inv (effect dp d)"
proof -
  obtain ival en imm where dp: "dp = (ival, en, imm)"
    by (cases dp)
  show ?thesis
  proof (cases en)
    case False
    with dp assms show ?thesis
      by (simp add: effect_def polling_inv_def)
  next
    case True
    define d1 where "d1 = (if imm then tick d else d)"
    have "polling_inv d1"
      using assms(1) by (simp add: d1_def polling_inv_tick)
    then have "timers (clear_if_set d1) = []"
      by (rule timers_clear_if_set)
    with True dp show ?thesis
      by (simp add: effect_def polling_inv_def Let_def d1_def)
  qed
qed

lemma polling_inv_usePolling: "polling_inv d \<Longrightarrow> polling_inv (usePolling options d)"
proof -
  assume inv: "polling_inv d"
  define d' where "d' = (if has_cleanup d then effect_cleanup d else d)
      \<lparr>last_deps := Some (destructure options)\<rparr>"
  have "polling_inv d'"
    using inv polling_inv_clear_and_reset [OF inv]
    by (auto simp: d'_def effect_cleanup_def polling_inv_def)
  moreover have "timers d' = []"
    using inv timers_clear_and_reset [OF inv]
    by (auto simp: d'_def effect_cleanup_def polling_inv_def)
  ultimately have "polling_inv (effect (destructure options) d')"
    by (rule polling_inv_effect)
  with inv show ?thesis
    by (simp add: usePolling_def Let_def d'_def)
qed










section \<open>Properties of the tracker\<close>

lemma destructure_polling_options [simp]:
  "destructure (polling_options t) = (2000, isPolling t, True)"
  by (simp add: destructure_def polling_options_def)

lemma render_unchanged:
  "last_deps (hook s) = Some (destructure (polling_options (component s))) \<Longrightarrow> render s = s"
  by (simp add: render_def usePolling_def)

lemma last_deps_effect: "last_deps (effect dp d) = last_deps d"
  by (cases dp)
     (simp add: effect_def Let_def clear_if_set_def clearInterval_def tick_def
        split: option.splits)

lemma last_deps_usePolling: "last_deps (usePolling options d) = Some (destructure options)"
  by (simp add: usePolling_def Let_def last_deps_effect)

lemma invocations_clear_and_reset: "invocations (clear_and_reset d) = invocations d"
  by (simp add: clear_and_reset_def clearInterval_def split: option.splits)

lemma usePolling_disabled:
  assumes "polling_inv d" and "destructure options = (ival, False, imm)"
    and "last_deps d \<noteq> Some (destructure options)"
  shows "timers (usePolling options d) = [] \<and> invocations (usePolling options d) = invocations d"
proof -
  have "timers (if has_cleanup d then effect_cleanup d else d) = []"
    using assms(1) timers_clear_and_reset [OF assms(1)]
    by (auto simp: effect_cleanup_def polling_inv_def)
  with assms(2,3) show ?thesis
    by (simp add: usePolling_def effect_def effect_cleanup_def invocations_clear_and_reset)
qed

lemma fetchJobStatus_isPolling:
  "isPolling (fst (fetchJobStatus p r t)) \<Longrightarrow> isPolling t"
  by (cases r) (simp_all add: fetchJobStatus_def Let_def split: if_splits option.splits)

text \<open>A render after a state change keeps the invariant of the component.\<close>

lemma session_inv_render:
  assumes "polling_inv (hook s)" and "settled s \<le> invocations (hook s)"
    and "last_deps (hook s) = Some (2000, b, True)"
    and "b \<or> timers (hook s) = []"
    and "isPolling (component s) \<longrightarrow> b"
  shows "session_inv (render s)"
proof (cases "isPolling (component s) = b")
  case True
  with assms have "render s = s" by (simp add: render_unchanged)
  with True assms show ?thesis by (auto simp: session_inv_def)
next
  case False
  with assms(5) have off: "\<not> isPolling (component s)" and b by auto
  let ?o = "polling_options (component s)"
  have d: "destructure ?o = (2000, False, True)" using off by simp
  have ne: "last_deps (hook s) \<noteq> Some (destructure ?o)" using assms(3) \<open>b\<close> off by simp
  from usePolling_disabled [OF assms(1) d ne] assms(2) off
  show ?thesis
    by (simp add: session_inv_def render_def polling_inv_usePolling [OF assms(1)]
        last_deps_usePolling)
qed

lemma session_inv_mount: "session_inv (mount p)"
proof -
  let ?s = "\<lparr>component = tracker_init p, hook = polling_init, settled = 0, events = []\<rparr>"
  let ?o = "polling_options (tracker_init p)"
  have inv: "polling_inv (usePolling ?o polling_init)"
    by (rule polling_inv_usePolling [OF polling_inv_init])
  have "isPolling (tracker_init p) \<or> timers (usePolling ?o polling_init) = []"
    by (cases "isPolling (tracker_init p)")
       (simp_all add: usePolling_def polling_init_def effect_def)
  with inv show ?thesis
    by (simp add: mount_def render_def session_inv_def last_deps_usePolling)
qed

lemma session_inv_step: "session_inv s \<Longrightarrow> session_inv (session_step p i s)"
proof (cases i)
  case (TimerDue h)
  assume "session_inv s"
  with TimerDue show ?thesis
    by (simp add: session_inv_def fire_def polling_inv_tick) (simp add: tick_def)
next
  case (Settled r)
  assume inv: "session_inv s"
  show ?thesis
  proof (cases "settled s < invocations (hook s)")
    case False
    with Settled inv show ?thesis by simp
  next
    case True
    obtain t ev where f: "fetchJobStatus p r (component s) = (t, ev)"
      by (cases "fetchJobStatus p r (component s)")
    then have "isPolling t \<longrightarrow> isPolling (component s)"
      using fetchJobStatus_isPolling [of p r "component s"] by simp
    with inv True have "session_inv (render (s\<lparr>component := t, settled := Suc (settled s),
        events := events s @ ev\<rparr>))"
      by (intro session_inv_render [where b = "isPolling (component s)"])
         (simp_all add: session_inv_def)
    with Settled True f show ?thesis by simp
  qed
next
  case StopTracking
  assume inv: "session_inv s"
  then have "polling_inv (stop (hook s))" and "timers (stop (hook s)) = []"
    by (simp_all add: session_inv_def stop_def polling_inv_clear_and_reset timers_clear_and_reset)
  moreover have "last_deps (stop (hook s)) = last_deps (hook s)"
    and "invocations (stop (hook s)) = invocations (hook s)"
    by (simp_all add: stop_def clear_and_reset_def clearInterval_def split: option.splits)
  ultimately have "session_inv (render (handleStop s))"
    using inv
    by (intro session_inv_render [where b = "isPolling (component s)"])
       (simp_all add: session_inv_def handleStop_def)
  with StopTracking inv show ?thesis by simp
qed

lemma session_inv_run: "session_inv s \<Longrightarrow> session_inv (session_run p s is)"
  by (induction "is" arbitrary: s) (simp_all add: session_inv_step)

lemma session_inv_reachable: "session_inv (session_run p (mount p) is)"
  by (rule session_inv_run [OF session_inv_mount])

lemma session_inv_halted: "session_inv s \<Longrightarrow> \<not> isPolling (component s) \<Longrightarrow> halted s"
  by (auto simp: session_inv_def halted_def)

text \<open>Once halted, a tracker stays halted and dispatches nothing more.\<close>

lemma halted_step:
  assumes "halted s"
  shows "halted (session_step p i s) \<and>
         invocations (hook (session_step p i s)) = invocations (hook s) \<and>
         (settled s = invocations (hook s) \<longrightarrow>
            settled (session_step p i s) = settled s \<and>
            events (session_step p i s) = events s \<and>
            component (session_step p i s) = component s)"
proof (cases i)
  case (TimerDue h)
  with assms show ?thesis by (simp add: halted_def fire_def)
next
  case (Settled r)
  show ?thesis
  proof (cases "settled s < invocations (hook s)")
    case False
    with Settled assms show ?thesis by simp
  next
    case True
    obtain t ev where f: "fetchJobStatus p r (component s) = (t, ev)"
      by (cases "fetchJobStatus p r (component s)")
    then have off: "\<not> isPolling t"
      using fetchJobStatus_isPolling [of p r "component s"] assms by (auto simp: halted_def)
    let ?s = "s\<lparr>component := t, settled := Suc (settled s), events := events s @ ev\<rparr>"
    have "render ?s = ?s"
      using assms off by (intro render_unchanged) (simp add: halted_def)
    with Settled True f off assms show ?thesis
      by (simp add: halted_def)
  qed
next
  case StopTracking
  with assms show ?thesis
    by (simp add: halted_def stop_button_shown_def)
qed

lemma halted_run:
  assumes "halted s"
  shows "halted (session_run p s is) \<and>
         invocations (hook (session_run p s is)) = invocations (hook s) \<and>
         (settled s = invocations (hook s) \<longrightarrow>
            events (session_run p s is) = events s \<and>
            component (session_run p s is) = component s)"
  using assms
proof (induction "is" arbitrary: s)
  case Nil
  then show ?case by simp
next
  case (Cons i "is")
  from halted_step [OF Cons.prems, of p i] Cons.IH [of "session_step p i s"]
  show ?case by auto
qed


lemmas session_defs =
  mount_def render_def handleStop_def polling_options_def tracker_init_def
  usePolling_def destructure_def effect_def effect_cleanup_def stop_def fire_def tick_def
  clear_if_set_def clear_and_reset_def clearInterval_def polling_init_def
  fetchJobStatus_def or_else_def Let_def



lemma settled_step:
  assumes "session_inv s" and "settled s < invocations (hook s)"
  shows "session_inv (session_step p (Settled r) s) \<and>
         component (session_step p (Settled r) s) = fst (fetchJobStatus p r (component s)) \<and>
         events (session_step p (Settled r) s) = events s @ snd (fetchJobStatus p r (component s))"
proof -
  have "session_inv (session_step p (Settled r) s)"
    using assms(1) by (rule session_inv_step)
  with assms(2) show ?thesis
    by (simp add: render_def split: prod.splits)
qed









lemma fetchJobStatus_not_found:
  assumes "status_code e = 404"
  shows "fetchJobStatus p (Rejected (Some e)) t =
     (t\<lparr>error := Some (or_else (detail e) ''Failed to fetch job status''), isPolling := False\<rparr>,
      ConsoleError ''Error fetching job status:'' #
        (if onError p then [OnError ''Job not found''] else []))"
  using assms by (simp add: fetchJobStatus_def Let_def)

lemma fetchJobStatus_transient:
  assumes "case resp of None \<Rightarrow> True | Some e \<Rightarrow> status_code e \<noteq> 404"
  shows "fetchJobStatus p (Rejected resp) t =
     (t\<lparr>error := Some (or_else (case resp of None \<Rightarrow> None | Some e \<Rightarrow> detail e)
         ''Failed to fetch job status'')\<rparr>,
      [ConsoleError ''Error fetching job status:''])"
  using assms by (simp add: fetchJobStatus_def Let_def split: option.splits)

text \<open>
  C2. In every state a tracker reaches from its mount, whatever snapshot and progress it
  holds, when a poll in flight fails with HTTP status 404 the tracker turns \<open>isPolling\<close>
  off, the hook is left without a live timer and no further poll is dispatched. The
  events of that step are the console message and, when the parent supplied \<open>onError\<close>,
  exactly one call \<open>onError('Job not found')\<close>. The snapshot held is not changed.
\<close>

theorem not_found_stops_polling:
  assumes "s = session_run p (mount p) pre"
    and "settled s < invocations (hook s)"
    and "status_code e = 404"
    and "s' = session_step p (Settled (Rejected (Some e))) s"
  shows "\<not> isPolling (component s') \<and> timers (hook s') = [] \<and>
         invocations (hook (session_run p s' post)) = invocations (hook s') \<and>
         events s' = events s @ ConsoleError ''Error fetching job status:'' #
           (if onError p then [OnError ''Job not found''] else []) \<and>
         job (component s') = job (component s)"
proof -
  have inv: "session_inv s"
    using assms(1) by (simp add: session_inv_reachable)
  note step = settled_step [OF inv assms(2), of p "Rejected (Some e)", folded assms(4)]
  note nf = fetchJobStatus_not_found [OF assms(3), of p "component s"]
  from step nf have off: "\<not> isPolling (component s')"
    by simp
  with step have h: "halted s'"
    by (simp add: session_inv_halted)
  from halted_run [OF h, of p post] h step nf show ?thesis
    by (simp add: halted_def)
qed

theorem not_found_stops_polling_witness:
  "settled (session_run demo_props (mount demo_props)
      [Settled (Fulfilled (demo_snapshot processing 80)), TimerDue 1])
     < invocations (hook (session_run demo_props (mount demo_props)
      [Settled (Fulfilled (demo_snapshot processing 80)), TimerDue 1])) \<and>
   invocations (hook (session_run demo_props (mount demo_props)
      [Settled (Fulfilled (demo_snapshot processing 80)), TimerDue 1,
       Settled (Rejected (Some \<lparr>status_code = 404, detail = Some ''Job not found''\<rparr>)),
       TimerDue 1, TimerDue 1])) = 2 \<and>
   events (session_run demo_props (mount demo_props)
      [Settled (Fulfilled (demo_snapshot processing 80)), TimerDue 1,
       Settled (Rejected (Some \<lparr>status_code = 404, detail = Some ''Job not found''\<rparr>))]) =
     [ConsoleError ''Error fetching job status:'', OnError ''Job not found'']"
proof -
  let ?pre = "[Settled (Fulfilled (demo_snapshot processing 80)), TimerDue 1]"
  let ?e = "\<lparr>status_code = 404, detail = Some ''Job not found''\<rparr>"
  let ?post = "[TimerDue 1, TimerDue 1]"
  let ?s = "session_run demo_props (mount demo_props) ?pre"
  let ?s' = "session_step demo_props (Settled (Rejected (Some ?e))) ?s"
  have s: "?s = \<lparr>component = \<lparr>job = Some (demo_snapshot processing 80), error = None,
         isPolling = True\<rparr>,
       hook = \<lparr>intervalRef = Some 1, timers = [1], last_handle = 1, has_cleanup = True,
         last_deps = Some (2000, True, True), invocations = 2\<rparr>,
       settled = 1, events = []\<rparr>"
    by (simp add: session_defs demo_props_def demo_snapshot_def)
  have h2: "settled ?s < invocations (hook ?s)"
    unfolding s by simp
  have h3: "status_code ?e = 404"
    by simp
  have ev: "events ?s = []" "onError demo_props"
    unfolding s by (simp_all add: demo_props_def)
  have inv2: "invocations (hook ?s') = 2"
    unfolding s by (simp add: session_defs demo_props_def)
  from not_found_stops_polling [OF refl h2 h3 refl, of ?post] ev inv2
  have "invocations (hook (session_run demo_props ?s' ?post)) = 2"
    and "events ?s' = [ConsoleError ''Error fetching job status:'', OnError ''Job not found'']"
    by simp_all
  with h2 show ?thesis
    by simp
qed

text \<open>
  C8. In every state a tracker reaches from its mount, when a poll in flight fails without
  a response or with a status other than 404, \<open>isPolling\<close> and the whole state of the hook
  (its timer included) are unchanged, the snapshot held is kept, \<open>error\<close> is set to the
  server's detail or the generic message, and the only event is the console message: no
  callback is called.
\<close>

theorem transient_error_keeps_polling:
  assumes "s = session_run p (mount p) pre"
    and "settled s < invocations (hook s)"
    and "case resp of None \<Rightarrow> True | Some e \<Rightarrow> status_code e \<noteq> 404"
    and "s' = session_step p (Settled (Rejected resp)) s"
  shows "isPolling (component s') = isPolling (component s) \<and> hook s' = hook s \<and>
         job (component s') = job (component s) \<and>
         error (component s') =
           Some (or_else (case resp of None \<Rightarrow> None | Some e \<Rightarrow> detail e)
                   ''Failed to fetch job status'') \<and>
         events s' = events s @ [ConsoleError ''Error fetching job status:'']"
proof -
  have inv: "session_inv s"
    using assms(1) by (simp add: session_inv_reachable)
  note tr = fetchJobStatus_transient [OF assms(3), of p "component s"]
  let ?t = "(component s)\<lparr>error := Some (or_else (case resp of None \<Rightarrow> None | Some e \<Rightarrow> detail e)
         ''Failed to fetch job status'')\<rparr>"
  let ?s = "s\<lparr>component := ?t, settled := Suc (settled s),
      events := events s @ [ConsoleError ''Error fetching job status:'']\<rparr>"
  have "render ?s = ?s"
    using inv by (intro render_unchanged) (simp add: session_inv_def)
  with assms(2,4) tr have "s' = ?s"
    by simp
  then show ?thesis
    by simp
qed

theorem transient_error_keeps_polling_witness:
  "settled (session_run demo_props (mount demo_props)
      [Settled (Fulfilled (demo_snapshot processing 45)), TimerDue 1])
     < invocations (hook (session_run demo_props (mount demo_props)
      [Settled (Fulfilled (demo_snapshot processing 45)), TimerDue 1])) \<and>
   component (session_run demo_props (mount demo_props)
      [Settled (Fulfilled (demo_snapshot processing 45)), TimerDue 1,
       Settled (Rejected (Some \<lparr>status_code = 500, detail = None\<rparr>))]) =
     \<lparr>job = Some (demo_snapshot processing 45), error = Some ''Failed to fetch job status'',
      isPolling = True\<rparr> \<and>
   timers (hook (session_run demo_props (mount demo_props)
      [Settled (Fulfilled (demo_snapshot processing 45)), TimerDue 1,
       Settled (Rejected (Some \<lparr>status_code = 500, detail = None\<rparr>))])) = [1]"
proof -
  let ?pre = "[Settled (Fulfilled (demo_snapshot processing 45)), TimerDue 1]"
  let ?r = "Some \<lparr>status_code = 500, detail = None\<rparr>"
  let ?s = "session_run demo_props (mount demo_props) ?pre"
  let ?s' = "session_step demo_props (Settled (Rejected ?r)) ?s"
  have s: "?s = \<lparr>component = \<lparr>job = Some (demo_snapshot processing 45), error = None,
         isPolling = True\<rparr>,
       hook = \<lparr>intervalRef = Some 1, timers = [1], last_handle = 1, has_cleanup = True,
         last_deps = Some (2000, True, True), invocations = 2\<rparr>,
       settled = 1, events = []\<rparr>"
    by (simp add: session_defs demo_props_def demo_snapshot_def)
  have h2: "settled ?s < invocations (hook ?s)"
    unfolding s by simp
  have h3: "case ?r of None \<Rightarrow> True | Some e \<Rightarrow> status_code e \<noteq> 404"
    by simp
  have c: "component ?s = \<lparr>job = Some (demo_snapshot processing 45), error = None,
         isPolling = True\<rparr>" "timers (hook ?s) = [1]"
    unfolding s by simp_all
  from transient_error_keeps_polling [OF refl h2 h3 refl] c
  have "timers (hook ?s') = [1]"
    and "component ?s' = \<lparr>job = Some (demo_snapshot processing 45),
       error = Some ''Failed to fetch job status'', isPolling = True\<rparr>"
    by (simp_all add: or_else_def tracker.equality)
  with h2 show ?thesis
    by simp
qed

lemma fetchJobStatus_job:
  "job (fst (fetchJobStatus p r t)) = (case r of Fulfilled st \<Rightarrow> Some st | Rejected e \<Rightarrow> job t)"
  by (cases r) (simp_all add: fetchJobStatus_def Let_def split: option.splits)

lemma fetchJobStatus_fulfilled:
  "job (fst (fetchJobStatus p (Fulfilled snap) t)) = Some snap \<and>
   error (fst (fetchJobStatus p (Fulfilled snap) t)) = None"
  by (simp add: fetchJobStatus_def Let_def)

text \<open>
  C7 as stated fails: \<open>fetchJobStatus\<close> tests no flag before \<open>setJob\<close>. The tracker holds
  the snapshot with progress 45, the next poll is in flight when the user presses "Stop
  Tracking", and the response of that poll still replaces \<open>job\<close> after the stop.
\<close>

theorem late_snapshot_applied_counterexample:
  "stop_button_shown (component (session_run demo_props (mount demo_props)
      [Settled (Fulfilled (demo_snapshot processing 45)), TimerDue 1])) \<and>
   \<not> isPolling (component (session_run demo_props (mount demo_props)
      [Settled (Fulfilled (demo_snapshot processing 45)), TimerDue 1, StopTracking])) \<and>
   job (component (session_run demo_props (mount demo_props)
      [Settled (Fulfilled (demo_snapshot processing 45)), TimerDue 1, StopTracking])) =
     Some (demo_snapshot processing 45) \<and>
   job (component (session_run demo_props (mount demo_props)
      [Settled (Fulfilled (demo_snapshot processing 45)), TimerDue 1, StopTracking,
       Settled (Fulfilled (demo_snapshot processing 80))])) =
     Some (demo_snapshot processing 80)"
  by (simp add: session_defs stop_button_shown_def demo_props_def demo_snapshot_def)

text \<open>
  C7, amended. In every state a tracker reaches from its mount in which the stop button
  is shown, a stop request turns \<open>isPolling\<close> off and leaves no live timer, and no further
  poll is dispatched afterwards. A poll that was already in flight is not cancelled, and
  when its response arrives after the stop it is applied like any other: \<open>job\<close> becomes
  the snapshot and \<open>error\<close> is cleared.
\<close>

theorem stop_keeps_late_snapshot:
  assumes "s = session_run p (mount p) pre"
    and "stop_button_shown (component s)"
    and "s1 = session_step p StopTracking s"
    and "settled s1 < invocations (hook s1)"
    and "s2 = session_step p (Settled (Fulfilled snap)) s1"
  shows "\<not> isPolling (component s1) \<and> timers (hook s1) = [] \<and>
         invocations (hook (session_run p s1 post)) = invocations (hook s1) \<and>
         job (component s2) = Some snap \<and> error (component s2) = None"
proof -
  have "session_inv s"
    using assms(1) by (simp add: session_inv_reachable)
  then have inv: "session_inv s1"
    unfolding assms(3) by (rule session_inv_step)
  have off: "\<not> isPolling (component s1)"
    using assms(2) by (simp add: assms(3) render_def handleStop_def)
  with inv have h: "halted s1"
    by (rule session_inv_halted)
  note step = settled_step [OF inv assms(4), of p "Fulfilled snap", folded assms(5)]
  from halted_run [OF h, of p post] h off step fetchJobStatus_fulfilled [of p snap "component s1"]
  show ?thesis
    by (simp add: halted_def)
qed

theorem stop_keeps_late_snapshot_witness:
  "stop_button_shown (component (session_run demo_props (mount demo_props)
      [Settled (Fulfilled (demo_snapshot processing 45)), TimerDue 1])) \<and>
   settled (session_run demo_props (mount demo_props)
      [Settled (Fulfilled (demo_snapshot processing 45)), TimerDue 1, StopTracking])
     < invocations (hook (session_run demo_props (mount demo_props)
      [Settled (Fulfilled (demo_snapshot processing 45)), TimerDue 1, StopTracking])) \<and>
   invocations (hook (session_run demo_props (mount demo_props)
      [Settled (Fulfilled (demo_snapshot processing 45)), TimerDue 1, StopTracking,
       TimerDue 1, TimerDue 1])) =
   invocations (hook (session_run demo_props (mount demo_props)
      [Settled (Fulfilled (demo_snapshot processing 45)), TimerDue 1, StopTracking])) \<and>
   job (component (session_run demo_props (mount demo_props)
      [Settled (Fulfilled (demo_snapshot processing 45)), TimerDue 1, StopTracking,
       Settled (Fulfilled (demo_snapshot processing 80))])) =
     Some (demo_snapshot processing 80)"
proof -
  let ?s = "session_run demo_props (mount demo_props)
      [Settled (Fulfilled (demo_snapshot processing 45)), TimerDue 1]"
  let ?s1 = "session_step demo_props StopTracking ?s"
  have h2: "stop_button_shown (component ?s)"
    by (simp add: session_defs stop_button_shown_def demo_props_def demo_snapshot_def)
  have h4: "settled ?s1 < invocations (hook ?s1)"
    by (simp add: session_defs stop_button_shown_def demo_props_def demo_snapshot_def)
  from stop_keeps_late_snapshot [OF refl h2 refl h4 refl, of "[TimerDue 1, TimerDue 1]"
      "demo_snapshot processing 80"] h2 h4
  show ?thesis
    by simp
qed

lemma progress_step_ok_weaken: "progress_step_ok prev st \<Longrightarrow> progress_step_ok None st"
  by (simp add: progress_step_ok_def)

lemma progress_step_ok_self: "progress_step_ok None q \<Longrightarrow> progress_step_ok (Some q) q"
  by (simp add: progress_step_ok_def)

lemma history_follows_received:
  assumes "case job t of None \<Rightarrow> True | Some q \<Rightarrow> progress_step_ok None q"
  shows "history_ok (job t) (job_history p t rs) = progress_ok (job t) (received rs)"
  using assms
proof (induction rs arbitrary: t)
  case Nil
  then show ?case by simp
next
  case (Cons r rs)
  let ?t' = "fst (fetchJobStatus p r t)"
  show ?case
  proof (cases r)
    case (Fulfilled st)
    then have j: "job ?t' = Some st"
      by (simp add: fetchJobStatus_job)
    show ?thesis
    proof (cases "progress_step_ok (job t) st")
      case True
      then have "case job ?t' of None \<Rightarrow> True | Some q \<Rightarrow> progress_step_ok None q"
        using j by (simp add: progress_step_ok_weaken)
      from Cons.IH [OF this] True Fulfilled j show ?thesis
        by (simp add: Let_def)
    next
      case False
      with Fulfilled j show ?thesis
        by (simp add: Let_def)
    qed
  next
    case (Rejected e)
    then have j: "job ?t' = job t"
      by (simp add: fetchJobStatus_job)
    with Cons.prems have "case job ?t' of None \<Rightarrow> True | Some q \<Rightarrow> progress_step_ok None q"
      by simp
    from Cons.IH [OF this] Rejected j Cons.prems show ?thesis
      by (cases "job t") (simp_all add: Let_def progress_step_ok_self)
  qed
qed

text \<open>
  C6 as stated fails: the tracker stores the snapshots as they come. When the server
  answers 80 and then 45 for a job in state processing, both are applied, and the
  progress held drops from 80 to 45.
\<close>

theorem progress_decrease_applied_counterexample:
  "map (map_option progress)
     (job_history demo_props (tracker_init demo_props)
        [Fulfilled (demo_snapshot processing 80), Fulfilled (demo_snapshot processing 45)]) =
     [Some 80, Some 45] \<and>
   \<not> history_ok None
     (job_history demo_props (tracker_init demo_props)
        [Fulfilled (demo_snapshot processing 80), Fulfilled (demo_snapshot processing 45)])"
  by (simp add: fetchJobStatus_def Let_def demo_snapshot_def progress_step_ok_def
      is_nonterminal_def)

text \<open>
  C6, amended. The tracker applies every snapshot as received and checks nothing: the
  history of \<open>job\<close> of a freshly mounted tracker keeps progress within 0--100, at 100 when
  completed and non-decreasing between consecutive non-terminal snapshots if and only if
  the snapshots the server returned do.
\<close>

theorem applied_progress_as_received:
  "history_ok None (job_history p (tracker_init p) rs) = progress_ok None (received rs)"
  using history_follows_received [of "tracker_init p" p rs]
  by (simp add: tracker_init_def)

theorem applied_progress_as_received_witness:
  "history_ok None
     (job_history demo_props (tracker_init demo_props)
        [Fulfilled (demo_snapshot uploaded 0), Rejected None,
         Fulfilled (demo_snapshot processing 45), Fulfilled (demo_snapshot completed 100)]) \<and>
   progress_ok None
     [demo_snapshot uploaded 0, demo_snapshot processing 45, demo_snapshot completed 100]"
proof -
  have "progress_ok None
     [demo_snapshot uploaded 0, demo_snapshot processing 45, demo_snapshot completed 100]"
    by (simp add: progress_step_ok_def is_nonterminal_def demo_snapshot_def)
  with applied_progress_as_received [of demo_props
      "[Fulfilled (demo_snapshot uploaded 0), Rejected None,
        Fulfilled (demo_snapshot processing 45), Fulfilled (demo_snapshot completed 100)]"]
  show ?thesis
    by simp
qed

text \<open>
  C5. \<open>getDownloadUrl\<close> is a function of the job identifier and the configured base
  endpoint alone: in two environments that agree on \<open>REACT_APP_API_URL\<close> it returns the
  same string for the same identifier, namely the base endpoint followed by
  \<open>/api/v1/download/\<close> and the identifier; and whatever state the tracker is in, the
  location \<open>handleDownload\<close> opens, if any, is that string.
\<close>

theorem getDownloadUrl_deterministic:
  assumes "e1 ''REACT_APP_API_URL'' = e2 ''REACT_APP_API_URL''"
  shows "getDownloadUrl (API_BASE_URL e1) jid = getDownloadUrl (API_BASE_URL e2) jid \<and>
         getDownloadUrl (API_BASE_URL e1) jid = API_BASE_URL e1 @ ''/api/v1/download/'' @ jid \<and>
         handleDownload (API_BASE_URL e1) p t \<in>
           {None, Some (getDownloadUrl (API_BASE_URL e2) (jobId p))}"
  using assms
  by (simp add: API_BASE_URL_def getDownloadUrl_def handleDownload_def split: option.splits)

theorem getDownloadUrl_deterministic_witness:
  "getDownloadUrl (API_BASE_URL (Map.empty(''REACT_APP_API_URL'' \<mapsto> ''https://api.example.org'')))
     ''job-1'' =
   getDownloadUrl (API_BASE_URL [''REACT_APP_API_URL'' \<mapsto> ''https://api.example.org'',
      ''NODE_ENV'' \<mapsto> ''production'']) ''job-1'' \<and>
   getDownloadUrl (API_BASE_URL Map.empty) ''job-1'' =
     ''http://localhost:8000/api/v1/download/job-1''"
proof -
  let ?e1 = "Map.empty(''REACT_APP_API_URL'' \<mapsto> ''https://api.example.org'')"
  let ?e2 = "[''REACT_APP_API_URL'' \<mapsto> ''https://api.example.org'',
      ''NODE_ENV'' \<mapsto> ''production'']"
  have h: "?e1 ''REACT_APP_API_URL'' = ?e2 ''REACT_APP_API_URL''"
    by simp
  have d: "API_BASE_URL Map.empty = ''http://localhost:8000''"
    by (simp add: API_BASE_URL_def or_else_def)
  from getDownloadUrl_deterministic [of ?e1 ?e2 "''job-1''"] h
  have "getDownloadUrl (API_BASE_URL ?e1) ''job-1'' = getDownloadUrl (API_BASE_URL ?e2) ''job-1''"
    by blast
  moreover from getDownloadUrl_deterministic [of Map.empty Map.empty "''job-1''"] d
  have "getDownloadUrl (API_BASE_URL Map.empty) ''job-1'' =
      ''http://localhost:8000/api/v1/download/job-1''"
    by simp
  ultimately show ?thesis
    by blast
qed


section \<open>Properties of the submission client\<close>

declare decimal_acc.simps [simp del]

lemma number_text_1024: "number_text 1024 = ''1024''"
  by code_simp

lemma upload_inv_init: "upload_inv p FileUpload_init"
  by (simp add: upload_inv_def FileUpload_init_def)

lemma upload_inv_step: "upload_inv p st \<Longrightarrow> upload_inv p (upload_step p i st)"
proof (cases i)
  case (SelectFile f)
  assume "upload_inv p st"
  with SelectFile show ?thesis
    by (auto simp: upload_inv_def handleFileSelect_def validated_def)
next
  case StartUpload
  assume "upload_inv p st"
  with StartUpload show ?thesis
    by (auto simp: upload_inv_def handleUpload_def uploadDataset_def search_params_def
        upload_params_def split: option.splits)
next
  case ClearFile
  assume "upload_inv p st"
  with ClearFile show ?thesis
    by (simp add: upload_inv_def clearFile_def)
qed

lemma upload_inv_run: "upload_inv p st \<Longrightarrow> upload_inv p (upload_run p st is)"
  by (induction "is" arbitrary: st) (simp_all add: upload_inv_step)

lemma upload_inv_reachable: "upload_inv p (upload_run p FileUpload_init is)"
  by (rule upload_inv_run [OF upload_inv_init])

text \<open>
  C3. A file whose size in bytes exceeds \<open>maxSize * 1024 * 1024\<close> is rejected by
  \<open>handleFileSelect\<close>: the only effect is the error toast "File size must be less than
  \<open>maxSize\<close>MB"; the selection and the requests sent are unchanged, an upload started
  right after on a fresh component sends nothing, and whatever the user does, no request
  ever carries that file. The witness is a 2048 MB file against the 1024 MB ceiling.
\<close>

theorem oversize_rejected:
  assumes "file_size file > maxSize_of p * 1024 * 1024"
  shows "handleFileSelect p file st =
           st\<lparr>toasts := toasts st @
             [Error (''File size must be less than '' @ number_text (maxSize_of p) @ ''MB'')]\<rparr> \<and>
         requests (handleFileSelect p file st) = requests st \<and>
         requests (handleUpload p (handleFileSelect p file FileUpload_init)) = [] \<and>
         file \<notin> form_file ` set (requests (upload_run p FileUpload_init is))"
proof -
  have "\<not> validated p file"
    using assms by (simp add: validated_def)
  then have "file \<notin> form_file ` set (requests (upload_run p FileUpload_init is))"
    using upload_inv_reachable [of p "is"] by (auto simp: upload_inv_def)
  with assms show ?thesis
    by (simp add: handleFileSelect_def handleUpload_def FileUpload_init_def)
qed

theorem oversize_rejected_witness:
  "file_size \<lparr>file_name = ''dataset.zip'', file_size = 2048 * 1024 * 1024\<rparr>
     > maxSize_of (page_props ''balanced'') * 1024 * 1024 \<and>
   handleFileSelect (page_props ''balanced'')
     \<lparr>file_name = ''dataset.zip'', file_size = 2048 * 1024 * 1024\<rparr> FileUpload_init =
     FileUpload_init\<lparr>toasts := [Error ''File size must be less than 1024MB'']\<rparr> \<and>
   requests (upload_run (page_props ''balanced'') FileUpload_init
     [SelectFile \<lparr>file_name = ''dataset.zip'', file_size = 2048 * 1024 * 1024\<rparr>, StartUpload]) = [] \<and>
   map form_file (requests (upload_run (page_props ''balanced'') FileUpload_init
     [SelectFile \<lparr>file_name = ''small.zip'', file_size = 4096\<rparr>, StartUpload,
      SelectFile \<lparr>file_name = ''dataset.zip'', file_size = 2048 * 1024 * 1024\<rparr>, StartUpload])) =
     [\<lparr>file_name = ''small.zip'', file_size = 4096\<rparr>,
      \<lparr>file_name = ''small.zip'', file_size = 4096\<rparr>] \<and>
   \<lparr>file_name = ''dataset.zip'', file_size = 2048 * 1024 * 1024\<rparr> \<notin>
     form_file ` set (requests (upload_run (page_props ''balanced'') FileUpload_init
     [SelectFile \<lparr>file_name = ''small.zip'', file_size = 4096\<rparr>, StartUpload,
      SelectFile \<lparr>file_name = ''dataset.zip'', file_size = 2048 * 1024 * 1024\<rparr>, StartUpload]))"
proof -
  let ?f = "\<lparr>file_name = ''dataset.zip'', file_size = 2048 * 1024 * 1024\<rparr>"
  let ?g = "\<lparr>file_name = ''small.zip'', file_size = 4096\<rparr>"
  let ?p = "page_props ''balanced''"
  let ?is = "[SelectFile ?g, StartUpload, SelectFile ?f, StartUpload]"
  have m: "maxSize_of ?p = 1024"
    by (simp add: maxSize_of_def page_props_def)
  have h: "file_size ?f > maxSize_of ?p * 1024 * 1024"
    by (simp add: m)
  note r = oversize_rejected [OF h, of FileUpload_init ?is]
  from r have "handleFileSelect ?p ?f FileUpload_init =
      FileUpload_init\<lparr>toasts := toasts FileUpload_init @
        [Error (''File size must be less than '' @ number_text (maxSize_of ?p) @ ''MB'')]\<rparr>"
    by (rule conjunct1)
  then have a: "handleFileSelect ?p ?f FileUpload_init =
      FileUpload_init\<lparr>toasts := [Error ''File size must be less than 1024MB'']\<rparr>"
    by (simp add: m number_text_1024 FileUpload_init_def)
  from r have "requests (handleUpload ?p (handleFileSelect ?p ?f FileUpload_init)) = []"
    by blast
  then have b: "requests (upload_run ?p FileUpload_init [SelectFile ?f, StartUpload]) = []"
    by simp
  have e: "fileExtension ''small.zip'' = ''.zip''"
    by (simp add: fileExtension_def pop_def toLowerCase_def toLowerCase_char_def)
  have i: "js_includes (acceptedTypes_of ?p) ''.zip''"
    by (simp add: acceptedTypes_of_def page_props_def)
  have c: "map form_file (requests (upload_run ?p FileUpload_init ?is)) = [?g, ?g]"
    using e i m
    by (simp add: handleFileSelect_def handleUpload_def uploadDataset_def FileUpload_init_def)
  from r have d: "?f \<notin> form_file ` set (requests (upload_run ?p FileUpload_init ?is))"
    by blast
  from h a b c d show ?thesis
    by blast
qed


lemma js_split_nonempty: "js_split c s \<noteq> []"
  by (induction s) (simp_all split: list.splits)

lemma js_split_first_prefix: "js_split c s = w # ws \<Longrightarrow> take (length w) s = w"
proof (induction s arbitrary: w ws)
  case Nil
  then show ?case by simp
next
  case (Cons a s)
  show ?case
  proof (cases "a = c")
    case True
    with Cons.prems show ?thesis by simp
  next
    case False
    obtain v vs where v: "js_split c s = v # vs"
      using js_split_nonempty [of c s] by (cases "js_split c s") simp_all
    with False Cons.prems have "w = a # v" by simp
    with Cons.IH [OF v] show ?thesis by simp
  qed
qed

lemma js_includes_empty: "js_includes s []"
  by (cases s) simp_all

lemma js_split_member_included: "x \<in> set (js_split c s) \<Longrightarrow> js_includes s x"
proof (induction s)
  case Nil
  then show ?case by simp
next
  case (Cons a s)
  show ?case
  proof (cases "a = c")
    case True
    with Cons show ?thesis by (auto simp: js_includes_empty)
  next
    case False
    obtain v vs where v: "js_split c s = v # vs"
      using js_split_nonempty [of c s] by (cases "js_split c s") simp_all
    with False Cons.prems have "x = a # v \<or> x \<in> set vs" by simp
    then show ?thesis
    proof
      assume "x = a # v"
      with js_split_first_prefix [OF v] show ?thesis by simp
    next
      assume "x \<in> set vs"
      with v Cons.IH show ?thesis by simp
    qed
  qed
qed

text \<open>
  The half of the extension check that holds: a file within the size limit whose
  extension is one of the comma-separated entries of \<open>acceptedTypes\<close> is selected.
\<close>

lemma listed_extension_accepted:
  assumes "fileExtension (file_name f) \<in> set (js_split CHR '','' (acceptedTypes_of p))"
    and "file_size f \<le> maxSize_of p * 1024 * 1024"
  shows "handleFileSelect p f st =
     st\<lparr>selectedFile := Some f, toasts := toasts st @ [Success ''File selected successfully!'']\<rparr>"
  using assms js_split_member_included [OF assms(1)]
  by (simp add: handleFileSelect_def)

lemma accepted_set:
  "set (js_split CHR '','' (acceptedTypes_of (page_props mode))) =
     {''.zip'', ''.jpg'', ''.jpeg'', ''.png'', ''.bmp'', ''.tiff'', ''.webp''}"
  by (simp add: acceptedTypes_of_def page_props_def) 

text \<open>
  C4. The code at the failing input: \<open>photo.jp\<close> has the extension \<open>.jp\<close>, which is not one
  of the accepted extensions, yet \<open>acceptedTypes.includes('.jp')\<close> is a substring test on
  the comma-separated string and finds it inside \<open>.jpg\<close>: the file is selected with the
  success toast, and the upload then sends it.
\<close>

theorem unlisted_extension_accepted:
  "fileExtension ''photo.jp'' = ''.jp'' \<and>
   ''.jp'' \<notin> {''.zip'', ''.jpg'', ''.jpeg'', ''.png'', ''.bmp'', ''.tiff'', ''.webp''} \<and>
   handleFileSelect (page_props ''balanced'') \<lparr>file_name = ''photo.jp'', file_size = 10\<rparr>
       FileUpload_init =
     FileUpload_init\<lparr>selectedFile := Some \<lparr>file_name = ''photo.jp'', file_size = 10\<rparr>,
       toasts := [Success ''File selected successfully!'']\<rparr> \<and>
   map form_file (requests (upload_run (page_props ''balanced'') FileUpload_init
       [SelectFile \<lparr>file_name = ''photo.jp'', file_size = 10\<rparr>, StartUpload])) =
     [\<lparr>file_name = ''photo.jp'', file_size = 10\<rparr>]"
proof -
  have e: "fileExtension ''photo.jp'' = ''.jp''"
    by (simp add: fileExtension_def pop_def toLowerCase_def toLowerCase_char_def)
  have i: "js_includes (acceptedTypes_of (page_props ''balanced'')) ''.jp''"
    by (simp add: acceptedTypes_of_def page_props_def)
  have m: "maxSize_of (page_props ''balanced'') = 1024"
    by (simp add: maxSize_of_def page_props_def)
  from e i m show ?thesis
    by (simp add: handleFileSelect_def handleUpload_def uploadDataset_def FileUpload_init_def)
qed

text \<open>
  C10. With a file selected, \<open>handleUpload\<close> sends one request whose query parameters are
  \<open>quality_mode\<close> (the \<open>qualityMode\<close> prop, "balanced" by default),
  \<open>remove_duplicates=true\<close>, \<open>normalize_format=true\<close> and \<open>target_format=JPEG\<close>, and
  whatever the user does, every request the component sends has exactly these
  parameters: none of \<open>resize_images\<close>, \<open>target_width\<close>, \<open>target_height\<close> is ever sent.
\<close>

theorem upload_configuration_fixed:
  assumes "selectedFile st = Some f"
  shows "requests (handleUpload p st) = requests st @
           [\<lparr>path = ''/api/v1/upload'',
             params = [(''quality_mode'', qualityMode_of p), (''remove_duplicates'', ''true''),
                       (''normalize_format'', ''true''), (''target_format'', ''JPEG'')],
             form_file = f\<rparr>] \<and>
         (\<forall>r \<in> set (requests (upload_run p FileUpload_init is)).
            params r = [(''quality_mode'', qualityMode_of p), (''remove_duplicates'', ''true''),
                        (''normalize_format'', ''true''), (''target_format'', ''JPEG'')] \<and>
            map_of (params r) ''resize_images'' = None \<and>
            map_of (params r) ''target_width'' = None \<and>
            map_of (params r) ''target_height'' = None)"
proof -
  have "\<forall>r \<in> set (requests (upload_run p FileUpload_init is)). params r = upload_params p"
    using upload_inv_reachable [of p "is"] by (simp add: upload_inv_def)
  with assms show ?thesis
    by (simp add: handleUpload_def uploadDataset_def search_params_def upload_params_def)
qed

theorem upload_configuration_fixed_witness:
  "selectedFile (upload_run (page_props ''strict'') FileUpload_init
      [SelectFile \<lparr>file_name = ''Dataset.ZIP'', file_size = 4096\<rparr>]) =
     Some \<lparr>file_name = ''Dataset.ZIP'', file_size = 4096\<rparr> \<and>
   requests (upload_run (page_props ''strict'') FileUpload_init
      [SelectFile \<lparr>file_name = ''Dataset.ZIP'', file_size = 4096\<rparr>, StartUpload]) =
     [\<lparr>path = ''/api/v1/upload'',
       params = [(''quality_mode'', ''strict''), (''remove_duplicates'', ''true''),
                 (''normalize_format'', ''true''), (''target_format'', ''JPEG'')],
       form_file = \<lparr>file_name = ''Dataset.ZIP'', file_size = 4096\<rparr>\<rparr>] \<and>
   map params (requests (upload_run (page_props ''strict'') FileUpload_init
      [SelectFile \<lparr>file_name = ''Dataset.ZIP'', file_size = 4096\<rparr>, StartUpload, ClearFile,
       StartUpload, SelectFile \<lparr>file_name = ''b.png'', file_size = 7\<rparr>, StartUpload])) =
     replicate 2
       [(''quality_mode'', ''strict''), (''remove_duplicates'', ''true''),
        (''normalize_format'', ''true''), (''target_format'', ''JPEG'')]"
proof -
  let ?f = "\<lparr>file_name = ''Dataset.ZIP'', file_size = 4096\<rparr>"
  let ?g = "\<lparr>file_name = ''b.png'', file_size = 7\<rparr>"
  let ?p = "page_props ''strict''"
  let ?st = "upload_run ?p FileUpload_init [SelectFile ?f]"
  let ?is = "[SelectFile ?f, StartUpload, ClearFile, StartUpload, SelectFile ?g, StartUpload]"
  have e: "fileExtension ''Dataset.ZIP'' = ''.zip''"
    by (simp add: fileExtension_def pop_def toLowerCase_def toLowerCase_char_def)
  have i: "js_includes (acceptedTypes_of ?p) ''.zip''"
    by (simp add: acceptedTypes_of_def page_props_def)
  have m: "maxSize_of ?p = 1024"
    by (simp add: maxSize_of_def page_props_def)
  have st: "?st = FileUpload_init\<lparr>selectedFile := Some ?f,
      toasts := [Success ''File selected successfully!'']\<rparr>"
    using e i m by (simp add: handleFileSelect_def FileUpload_init_def)
  then have h: "selectedFile ?st = Some ?f"
    by simp
  have q: "qualityMode_of ?p = ''strict''"
    by (simp add: qualityMode_of_def page_props_def)
  note r = upload_configuration_fixed [OF h, of ?p ?is]
  have "requests (upload_run ?p FileUpload_init [SelectFile ?f, StartUpload]) =
      requests (handleUpload ?p ?st)"
    by simp
  also from r have "\<dots> = requests ?st @
      [\<lparr>path = ''/api/v1/upload'',
        params = [(''quality_mode'', qualityMode_of ?p), (''remove_duplicates'', ''true''),
                  (''normalize_format'', ''true''), (''target_format'', ''JPEG'')],
        form_file = ?f\<rparr>]"
    by (rule conjunct1)
  also have "requests ?st = []"
    unfolding st by (simp add: FileUpload_init_def)
  finally have a: "requests (upload_run ?p FileUpload_init [SelectFile ?f, StartUpload]) =
     [\<lparr>path = ''/api/v1/upload'',
       params = [(''quality_mode'', ''strict''), (''remove_duplicates'', ''true''),
                 (''normalize_format'', ''true''), (''target_format'', ''JPEG'')],
       form_file = ?f\<rparr>]"
    using q by simp
  let ?x = "[(''quality_mode'', ''strict''), (''remove_duplicates'', ''true''),
      (''normalize_format'', ''true''), (''target_format'', ''JPEG'')]"
  have e': "fileExtension ''b.png'' = ''.png''"
    by (simp add: fileExtension_def pop_def toLowerCase_def toLowerCase_char_def)
  have i': "js_includes (acceptedTypes_of ?p) ''.png''"
    by (simp add: acceptedTypes_of_def page_props_def)
  have len: "length (requests (upload_run ?p FileUpload_init ?is)) = 2"
    using e i e' i' m
    by (simp add: handleFileSelect_def handleUpload_def clearFile_def FileUpload_init_def)
  from r have "\<forall>r \<in> set (requests (upload_run ?p FileUpload_init ?is)).
      params r = [(''quality_mode'', qualityMode_of ?p), (''remove_duplicates'', ''true''),
                  (''normalize_format'', ''true''), (''target_format'', ''JPEG'')]"
    by blast
  then have "\<forall>y \<in> set (map params (requests (upload_run ?p FileUpload_init ?is))). y = ?x"
    by (simp add: q)
  then have "replicate (length (map params (requests (upload_run ?p FileUpload_init ?is)))) ?x =
      map params (requests (upload_run ?p FileUpload_init ?is))"
    by (rule replicate_length_same)
  with len have b: "map params (requests (upload_run ?p FileUpload_init ?is)) = replicate 2 ?x"
    by simp
  from h a b show ?thesis
    by blast
qed

end
